theory Spec2Isabelle
  imports Complex_Main "HOL-Library.Sublist"
begin

section \<open>Research Hub: the document repository of \<^verbatim>\<open>AI-Assisste-research-.js\<close>\<close>

text \<open>
  The component \<^verbatim>\<open>ResearchHub\<close> keeps three collections in React state (documents, notes by
  document, links by document) and mirrors them in \<^verbatim>\<open>window.storage\<close>. Every handler is
  modelled as a function from the state it reads to the state it leaves, together with the
  list of storage operations it issues, in the order of the source. Exceptions are values of
  a sum type, awaited calls are taken in sequence (one handler runs to its end before the
  next one starts), a write to the store succeeds, and what the browser supplies (the clock,
  the random number, the answer of the analysis service, what the store returns on reading)
  is an argument.

  Strings are lists of \<^typ>\<open>char\<close>, read as code units below 256. The handlers that run
  on documents already in the list take them at the shape \<^verbatim>\<open>handleFileUpload\<close> gives a
  document, and an analysis result at the four fields the prompt of \<^verbatim>\<open>analyzeDocument\<close>
  asks for and its fallback literal supplies. The callback that builds a document spreads
  the unchecked output of \<^verbatim>\<open>JSON.parse\<close> into it: there the analysis is any value, and
  the document an object.
\<close>

subsection \<open>Data\<close>

record Note =
  id' :: int
  text' :: string
  timestamp :: string

record analysis =
  summary :: string
  keywords' :: "string list"
  entities :: "string list"
  topic :: string

text \<open>A document spreads an analysis into itself, so it extends the record. The type
  \<open>'i\<close> is that of identifiers: a JavaScript number, only ever compared with \<^verbatim>\<open>===\<close>
  and converted to a string inside keys.\<close>

record 'i document = analysis +
  id' :: 'i
  title :: string
  content :: string
  uploadDate :: string
  fileType :: string
  tags :: "string list"

datatype js_error = NetworkError | SyntaxError | TypeError | StorageError

text \<open>The values \<^verbatim>\<open>response.json()\<close> can produce.\<close>

datatype js_value =
  JNull
  | JBool bool
  | JNum rat
  | JStr string
  | JArr "js_value list"
  | JObj "(string \<times> js_value) list"

subsection \<open>String primitives of the language\<close>

text \<open>\<^verbatim>\<open>s.includes(t)\<close>: \<open>t\<close> occurs in \<open>s\<close> as a contiguous run.\<close>

fun includes' :: "string \<Rightarrow> string \<Rightarrow> bool" where
  "includes' [] t = (t = [])"
| "includes' (c # cs) t = (prefix t (c # cs) \<or> includes' cs t)"

text \<open>\<^verbatim>\<open>toLowerCase\<close> on code units below 256: the letters A to Z, and the upper-case
  letters of Latin-1 (0xC0 to 0xDE without the multiplication sign 0xD7), move up by 32.\<close>

definition lower_char :: "char \<Rightarrow> char" where
  "lower_char c =
     (let n = (of_char c :: nat) in
      if (65 \<le> n \<and> n \<le> 90) \<or> (192 \<le> n \<and> n \<le> 222 \<and> n \<noteq> 215)
      then char_of (n + 32) else c)"

definition toLowerCase :: "string \<Rightarrow> string" where
  "toLowerCase s = map lower_char s"

text \<open>\<^verbatim>\<open>trim\<close>: white space of the language below 256 is tab, line feed, vertical tab,
  form feed, carriage return, space and the no-break space.\<close>

definition is_space :: "char \<Rightarrow> bool" where
  "is_space c = (c \<in> set [CHR 0x09, CHR 0x0A, CHR 0x0B, CHR 0x0C, CHR 0x0D, CHR 0x20, CHR 0xA0])"

definition trim :: "string \<Rightarrow> string" where
  "trim s = rev (dropWhile is_space (rev (dropWhile is_space s)))"

text \<open>\<^verbatim>\<open>s.replace(p, r)\<close> with a string pattern: the first occurrence of \<open>p\<close> only.\<close>

fun replace :: "string \<Rightarrow> string \<Rightarrow> string \<Rightarrow> string" where
  "replace [] p r = (if p = [] then r else [])"
| "replace (c # cs) p r =
     (if prefix p (c # cs) then r @ drop (length p) (c # cs) else c # replace cs p r)"

text \<open>\<^verbatim>\<open>text_content.replace(/```json|```/g, "")\<close>: every fence is removed, scanning from
  the left, the longer alternative tried first.\<close>

function strip_fences :: "string \<Rightarrow> string" where
  "strip_fences [] = []"
| "strip_fences (c # cs) =
     (if prefix ''```json'' (c # cs) then strip_fences (drop 7 (c # cs))
      else if prefix ''```'' (c # cs) then strip_fences (drop 3 (c # cs))
      else c # strip_fences cs)"
  by pat_completeness auto
termination
  by (relation "measure length") auto

text \<open>\<^verbatim>\<open>name.replace(/\.[^/.]+$/, "")\<close>: the leftmost dot that is followed, up to the end of
  the string, by one or more characters none of which is a slash or a dot, is removed with
  everything after it.\<close>

definition ext_char :: "char \<Rightarrow> bool" where
  "ext_char c = (c \<noteq> CHR ''/'' \<and> c \<noteq> CHR ''.'')"

fun strip_extension :: "string \<Rightarrow> string" where
  "strip_extension [] = []"
| "strip_extension (c # cs) =
     (if c = CHR ''.'' \<and> cs \<noteq> [] \<and> list_all ext_char cs then []
      else c # strip_extension cs)"

text \<open>A natural number written in decimal, as an array index is when it names a property.\<close>

fun decimal :: "nat \<Rightarrow> string" where
  "decimal n =
     (if n < 10 then [char_of (48 + n)] else decimal (n div 10) @ [char_of (48 + n mod 10)])"

declare decimal.simps [simp del]

subsection \<open>The analysis service\<close>

text \<open>What \<^verbatim>\<open>fetch\<close> resolves to: the status line, which the source never reads, and the
  outcome of \<^verbatim>\<open>response.json()\<close>.\<close>

record response =
  status :: nat
  json :: "js_error + js_value"

text \<open>The collaborators of \<^verbatim>\<open>analyzeDocument\<close>: the service, as a function of the title and
  of the text prefix placed in the prompt (the fixed wording around them is left out);
  \<^verbatim>\<open>JSON.parse\<close> on the cleaned answer, giving an analysis or throwing; and the language's
  conversion of a value that is not a string to one, which \<^verbatim>\<open>join\<close> applies.\<close>

record service =
  fetch :: "string \<Rightarrow> string \<Rightarrow> js_error + response"
  JSON_parse :: "string \<Rightarrow> js_error + analysis"
  ToString :: "js_value \<Rightarrow> string"

text \<open>Reading a property: a \<^verbatim>\<open>TypeError\<close> on \<^verbatim>\<open>null\<close>, the value on an object that has
  the key, \<^verbatim>\<open>undefined\<close> (\<open>None\<close>) otherwise. The keys read below (\<^verbatim>\<open>content\<close>,
  \<^verbatim>\<open>type\<close>, \<^verbatim>\<open>text\<close>, \<^verbatim>\<open>topic\<close>) are no built-in property of a string, number or
  array.\<close>

definition property :: "js_value \<Rightarrow> string \<Rightarrow> js_error + js_value option" where
  "property v k =
     (case v of JNull \<Rightarrow> Inl TypeError | JObj kvs \<Rightarrow> Inr (map_of kvs k) | _ \<Rightarrow> Inr None)"

text \<open>\<^verbatim>\<open>item => item.type === "text" ? item.text : ""\<close>\<close>

definition item_text :: "js_value \<Rightarrow> js_error + js_value option" where
  "item_text item =
     (case property item ''type'' of
        Inl e \<Rightarrow> Inl e
      | Inr t \<Rightarrow> if t = Some (JStr ''text'') then property item ''text'' else Inr (Some (JStr '''')))"

fun map_items :: "js_value list \<Rightarrow> js_error + js_value option list" where
  "map_items [] = Inr []"
| "map_items (x # xs) =
     (case item_text x of
        Inl e \<Rightarrow> Inl e
      | Inr v \<Rightarrow> (case map_items xs of Inl e \<Rightarrow> Inl e | Inr vs \<Rightarrow> Inr (v # vs)))"

text \<open>\<^verbatim>\<open>join("")\<close>: \<^verbatim>\<open>undefined\<close> and \<^verbatim>\<open>null\<close> give the empty string.\<close>

definition join_piece :: "(js_value \<Rightarrow> string) \<Rightarrow> js_value option \<Rightarrow> string" where
  "join_piece ts v =
     (case v of None \<Rightarrow> [] | Some JNull \<Rightarrow> [] | Some (JStr s) \<Rightarrow> s | Some x \<Rightarrow> ts x)"

definition join :: "(js_value \<Rightarrow> string) \<Rightarrow> js_value option list \<Rightarrow> string" where
  "join ts vs = concat (map (join_piece ts) vs)"

text \<open>\<^verbatim>\<open>data.content.map(...).join("")\<close>: only an array has \<^verbatim>\<open>map\<close>.\<close>

definition text_content :: "(js_value \<Rightarrow> string) \<Rightarrow> js_value \<Rightarrow> js_error + string" where
  "text_content ts data =
     (case property data ''content'' of
        Inl e \<Rightarrow> Inl e
      | Inr (Some (JArr items)) \<Rightarrow>
          (case map_items items of Inl e \<Rightarrow> Inl e | Inr vs \<Rightarrow> Inr (join ts vs))
      | Inr _ \<Rightarrow> Inl TypeError)"

definition fallback :: analysis where
  "fallback =
     \<lparr>summary = ''Analysis unavailable'', keywords' = [], entities = [], topic = ''General''\<rparr>"

text \<open>The body of the \<^verbatim>\<open>try\<close> block.\<close>

definition analyzeDocument_try :: "service \<Rightarrow> string \<Rightarrow> string \<Rightarrow> js_error + analysis" where
  "analyzeDocument_try env text ttl =
     (case fetch env ttl (take 5000 text) of
        Inl e \<Rightarrow> Inl e
      | Inr response \<Rightarrow>
          (case json response of
             Inl e \<Rightarrow> Inl e
           | Inr data \<Rightarrow>
               (case text_content (ToString env) data of
                  Inl e \<Rightarrow> Inl e
                | Inr tc \<Rightarrow> JSON_parse env (trim (strip_fences tc)))))"

definition analyzeDocument :: "service \<Rightarrow> string \<Rightarrow> string \<Rightarrow> js_error + analysis" where
  "analyzeDocument env text ttl =
     (case analyzeDocument_try env text ttl of
        Inr result \<Rightarrow> Inr result
      | Inl error \<Rightarrow> Inr fallback)"

subsection \<open>State and storage\<close>

text \<open>The React state of the component. The objects \<^verbatim>\<open>notes\<close> and \<^verbatim>\<open>links\<close> are keyed by
  property name, that is by the string an identifier converts to.\<close>

record 'i hub =
  documents :: "'i document list"
  selectedDoc :: "'i document option"
  searchTerm :: string
  filterTag :: string
  isAnalyzing :: bool
  showUpload :: bool
  notes' :: "string \<rightharpoonup> Note list"
  links :: "string \<rightharpoonup> string list"

text \<open>What is handed to \<^verbatim>\<open>JSON.stringify\<close> before a write. The text it produces is kept
  symbolic: a stored value is the value it serialises. \<open>Undefined\<close> is what
  \<^verbatim>\<open>JSON.stringify(undefined)\<close> returns.\<close>

datatype 'i payload =
  Doc "'i document"
  | Notes "Note list"
  | Links "string list"
  | Undefined

datatype 'i storage_op =
  Storage_set string "'i payload"
  | Storage_delete string

type_synonym 'i store = "string \<rightharpoonup> 'i payload"

fun apply_op :: "'i store \<Rightarrow> 'i storage_op \<Rightarrow> 'i store" where
  "apply_op s (Storage_set key v) = s(key \<mapsto> v)"
| "apply_op s (Storage_delete key) = s(key := None)"

definition persist :: "'i store \<Rightarrow> 'i storage_op list \<Rightarrow> 'i store" where
  "persist s ops = foldl apply_op s ops"

text \<open>A handler run against memory and store together: the memory update, then the writes.\<close>

definition run :: "('i hub \<Rightarrow> 'i hub \<times> 'i storage_op list) \<Rightarrow> 'i hub \<times> 'i store \<Rightarrow> 'i hub \<times> 'i store" where
  "run handler ms = (case handler (fst ms) of (st, ops) \<Rightarrow> (st, persist (snd ms) ops))"

subsection \<open>Loading\<close>

text \<open>The read side of \<^verbatim>\<open>window.storage\<close>. \<^verbatim>\<open>list\<close> throws or returns an object whose
  \<^verbatim>\<open>keys\<close> may be absent; \<^verbatim>\<open>get\<close> throws or returns an object whose \<^verbatim>\<open>value\<close> may be
  absent. \<^verbatim>\<open>JSON.parse\<close> is given once per namespace, at the type the loop stores its
  result at.\<close>

record 'i storage =
  list' :: "string \<Rightarrow> js_error + string list option"
  get :: "string \<Rightarrow> js_error + string option"
  parse_document :: "string \<Rightarrow> js_error + 'i document"
  parse_notes :: "string \<Rightarrow> js_error + Note list"
  parse_links :: "string \<Rightarrow> js_error + string list"

text \<open>The first loop of \<^verbatim>\<open>loadData\<close>; the accumulator is \<^verbatim>\<open>loadedDocs\<close>. An exception
  inside the body is caught inside the body; the empty string is falsy.\<close>

fun load_docs ::
  "(string \<Rightarrow> js_error + string option) \<Rightarrow> (string \<Rightarrow> js_error + 'd) \<Rightarrow> string list \<Rightarrow> 'd list \<Rightarrow> 'd list"
where
  "load_docs g parse [] loadedDocs = loadedDocs"
| "load_docs g parse (key # keys) loadedDocs =
     load_docs g parse keys
       (case g key of
          Inl e \<Rightarrow> loadedDocs
        | Inr None \<Rightarrow> loadedDocs
        | Inr (Some v) \<Rightarrow>
            if v = [] then loadedDocs
            else (case parse v of Inl e \<Rightarrow> loadedDocs | Inr d \<Rightarrow> loadedDocs @ [d]))"

text \<open>The second and third loops, which differ in the prefix and in the object they fill.\<close>

fun load_entries ::
  "(string \<Rightarrow> js_error + string option) \<Rightarrow> (string \<Rightarrow> js_error + 'v) \<Rightarrow> string \<Rightarrow> string list
     \<Rightarrow> (string \<rightharpoonup> 'v) \<Rightarrow> (string \<rightharpoonup> 'v)"
where
  "load_entries g parse p [] loaded = loaded"
| "load_entries g parse p (key # keys) loaded =
     load_entries g parse p keys
       (case g key of
          Inl e \<Rightarrow> loaded
        | Inr None \<Rightarrow> loaded
        | Inr (Some v) \<Rightarrow>
            if v = [] then loaded
            else (case parse v of
                    Inl e \<Rightarrow> loaded
                  | Inr x \<Rightarrow> loaded(replace key p [] \<mapsto> x)))"

text \<open>A listing that throws reaches the outer \<^verbatim>\<open>catch\<close>, and nothing is set.\<close>

definition loadData :: "'i storage \<Rightarrow> 'i hub \<Rightarrow> 'i hub" where
  "loadData s st =
     (case list' s ''doc:'' of
        Inl e \<Rightarrow> st
      | Inr docsData \<Rightarrow>
     (case list' s ''notes:'' of
        Inl e \<Rightarrow> st
      | Inr notesData \<Rightarrow>
     (case list' s ''links:'' of
        Inl e \<Rightarrow> st
      | Inr linksData \<Rightarrow>
          st\<lparr>documents :=
               (case docsData of None \<Rightarrow> []
                | Some keys \<Rightarrow> load_docs (get s) (parse_document s) keys []),
             notes' :=
               (case notesData of None \<Rightarrow> Map.empty
                | Some keys \<Rightarrow> load_entries (get s) (parse_notes s) ''notes:'' keys Map.empty),
             links :=
               (case linksData of None \<Rightarrow> Map.empty
                | Some keys \<Rightarrow> load_entries (get s) (parse_links s) ''links:'' keys Map.empty)\<rparr>)))"

subsection \<open>Ingest\<close>

record File =
  name :: string
  type' :: string

definition pdf_notice :: "string \<Rightarrow> string" where
  "pdf_notice n =
     ''[PDF Content from '' @ n @ '']'' @ [CHR 0x0A, CHR 0x0A] @
     ''This is a simulated PDF text extraction. In a real implementation, this would contain the extracted text from the PDF document.''"

text \<open>\<^verbatim>\<open>analyzeDocument\<close> with its result left as the value \<^verbatim>\<open>JSON.parse\<close> returned:
  \<open>parse\<close> is \<^verbatim>\<open>JSON.parse\<close> at the type of all values, and the fallback is the object
  of the literal.\<close>

definition fallback_value :: js_value where
  "fallback_value =
     JObj [(''summary'', JStr ''Analysis unavailable''), (''keywords'', JArr []),
           (''entities'', JArr []), (''topic'', JStr ''General'')]"

definition analyzeDocument_value_try ::
  "(string \<Rightarrow> js_error + js_value) \<Rightarrow> service \<Rightarrow> string \<Rightarrow> string \<Rightarrow> js_error + js_value"
where
  "analyzeDocument_value_try parse env text ttl =
     (case fetch env ttl (take 5000 text) of
        Inl e \<Rightarrow> Inl e
      | Inr response \<Rightarrow>
          (case json response of
             Inl e \<Rightarrow> Inl e
           | Inr data \<Rightarrow>
               (case text_content (ToString env) data of
                  Inl e \<Rightarrow> Inl e
                | Inr tc \<Rightarrow> parse (trim (strip_fences tc)))))"

definition analyzeDocument_value ::
  "(string \<Rightarrow> js_error + js_value) \<Rightarrow> service \<Rightarrow> string \<Rightarrow> string \<Rightarrow> js_value"
where
  "analyzeDocument_value parse env text ttl =
     (case analyzeDocument_value_try parse env text ttl of
        Inr result \<Rightarrow> result
      | Inl error \<Rightarrow> fallback_value)"

text \<open>A value held in memory: a value of the answer, or an array the code builds, whose
  elements may be \<^verbatim>\<open>undefined\<close> (\<open>None\<close>). An object maps its keys to such values.\<close>

datatype js_mem = Json js_value | Array "js_value option list"

type_synonym js_object = "string \<rightharpoonup> js_mem"

text \<open>The elements of a value that is an array, in either form.\<close>

definition array_of :: "js_mem \<Rightarrow> js_value option list option" where
  "array_of v =
     (case v of Array xs \<Rightarrow> Some xs | Json (JArr vs) \<Rightarrow> Some (map Some vs) | _ \<Rightarrow> None)"

definition tags_of :: "js_object \<Rightarrow> js_value option list option" where
  "tags_of d = (case d ''tags'' of None \<Rightarrow> None | Some v \<Rightarrow> array_of v)"

text \<open>What \<^verbatim>\<open>...analysis\<close> copies: the own properties of the value. An object has its keys,
  an array and a string have their indices, the other values have none.\<close>

fun own_properties :: "js_value \<Rightarrow> (string \<times> js_value) list" where
  "own_properties (JObj kvs) = kvs"
| "own_properties (JArr vs) = zip (map decimal [0..<length vs]) vs"
| "own_properties (JStr s) = zip (map decimal [0..<length s]) (map (\<lambda>c. JStr [c]) s)"
| "own_properties v = []"

text \<open>The object literal of \<^verbatim>\<open>newDoc\<close>. Reading \<^verbatim>\<open>analysis.topic\<close> throws on \<^verbatim>\<open>null\<close>; the
  spread comes last, so a key of the analysis replaces the field of the same name.\<close>

definition newDoc :: "File \<Rightarrow> string \<Rightarrow> js_value \<Rightarrow> rat \<Rightarrow> string \<Rightarrow> js_error + js_object" where
  "newDoc f text analysis new_id now =
     (case property analysis ''topic'' of
        Inl e \<Rightarrow> Inl e
      | Inr t \<Rightarrow>
          Inr ([''id'' \<mapsto> Json (JNum new_id),
                ''title'' \<mapsto> Json (JStr (strip_extension (name f))),
                ''content'' \<mapsto> Json (JStr text),
                ''uploadDate'' \<mapsto> Json (JStr now),
                ''fileType'' \<mapsto> Json (JStr (type' f)),
                ''tags'' \<mapsto> Array [t]]
               ++ (\<lambda>k. map_option Json (map_of (own_properties analysis) k))))"

text \<open>\<^verbatim>\<open>newDoc.id\<close>, and a value inside a template literal.\<close>

definition newDoc_id :: "js_value \<Rightarrow> rat \<Rightarrow> js_value" where
  "newDoc_id analysis new_id =
     (case map_of (own_properties analysis) ''id'' of None \<Rightarrow> JNum new_id | Some v \<Rightarrow> v)"

definition template :: "(js_value \<Rightarrow> string) \<Rightarrow> js_value \<Rightarrow> string" where
  "template ts v = (case v of JStr s \<Rightarrow> s | _ \<Rightarrow> ts v)"

text \<open>\<^verbatim>\<open>reader.onload\<close> for one file, the callback \<^verbatim>\<open>handleFileUpload\<close> gives the reader of
  each file: \<open>result\<close> is what the reader read, \<open>new_id\<close> is
  \<^verbatim>\<open>Date.now() + Math.random()\<close>, \<open>now\<close> is \<^verbatim>\<open>new Date().toISOString()\<close> and \<open>prev\<close> is the
  document list the updater of \<^verbatim>\<open>setDocuments\<close> receives. The callback returns the new list
  and the write it issues, or rejects with nothing appended and nothing written.\<close>

definition onload ::
  "(string \<Rightarrow> js_error + js_value) \<Rightarrow> service \<Rightarrow> File \<Rightarrow> string \<Rightarrow> rat \<Rightarrow> string
     \<Rightarrow> js_object list \<Rightarrow> js_error + js_object list \<times> (string \<times> js_object) list"
where
  "onload parse env f result new_id now prev =
     (let text = (if type' f = ''application/pdf'' then pdf_notice (name f) else result);
          analysis = analyzeDocument_value parse env text (name f)
      in case newDoc f text analysis new_id now of
           Inl e \<Rightarrow> Inl e
         | Inr d \<Rightarrow>
             Inr (prev @ [d],
                  [(''doc:'' @ template (ToString env) (newDoc_id analysis new_id), d)]))"

text \<open>The object a document of the typed shape is, and the value an analysis of the four
  fields is.\<close>

definition analysis_value :: "analysis \<Rightarrow> js_value" where
  "analysis_value a =
     JObj [(''summary'', JStr (summary a)), (''keywords'', JArr (map JStr (keywords' a))),
           (''entities'', JArr (map JStr (entities a))), (''topic'', JStr (topic a))]"

definition object_of :: "rat document \<Rightarrow> js_object" where
  "object_of d =
     [''id'' \<mapsto> Json (JNum (id' d)),
      ''title'' \<mapsto> Json (JStr (title d)),
      ''content'' \<mapsto> Json (JStr (content d)),
      ''uploadDate'' \<mapsto> Json (JStr (uploadDate d)),
      ''fileType'' \<mapsto> Json (JStr (fileType d)),
      ''tags'' \<mapsto> Array (map (\<lambda>t. Some (JStr t)) (tags d)),
      ''summary'' \<mapsto> Json (JStr (summary d)),
      ''keywords'' \<mapsto> Json (JArr (map JStr (keywords' d))),
      ''entities'' \<mapsto> Json (JArr (map JStr (entities d))),
      ''topic'' \<mapsto> Json (JStr (topic d))]"

subsection \<open>Mutations\<close>

text \<open>\<^verbatim>\<open>{ ...d, ...analysis }\<close>\<close>

definition spread :: "'i document \<Rightarrow> analysis \<Rightarrow> 'i document" where
  "spread d a =
     d\<lparr>summary := summary a, keywords' := keywords' a, entities := entities a, topic := topic a\<rparr>"

definition regenerateAnalysis ::
  "('i \<Rightarrow> string) \<Rightarrow> service \<Rightarrow> 'i document \<Rightarrow> 'i hub \<Rightarrow> 'i hub \<times> 'i storage_op list"
where
  "regenerateAnalysis str env doc st =
     (let st1 = st\<lparr>isAnalyzing := True\<rparr> in
      case analyzeDocument env (content doc) (title doc) of
        Inl e \<Rightarrow> (st1, [])
      | Inr a \<Rightarrow>
          (let updated =
                 map (\<lambda>d. if id' d = id' doc
                           then (spread d a)\<lparr>tags := topic a # drop 1 (tags d)\<rparr> else d)
                   (documents st);
               st2 = st1\<lparr>documents := updated\<rparr>;
               ops = [Storage_set (''doc:'' @ str (id' doc)) (Doc (spread doc a))];
               st3 = (case selectedDoc st2 of
                        None \<Rightarrow> st2
                      | Some sel \<Rightarrow>
                          if id' sel = id' doc
                          then st2\<lparr>selectedDoc := Some (spread doc a)\<rparr> else st2)
           in (st3\<lparr>isAnalyzing := False\<rparr>, ops)))"

text \<open>\<open>now\<close> is \<^verbatim>\<open>Date.now()\<close>, in milliseconds; \<open>stamp\<close> is \<^verbatim>\<open>new Date().toISOString()\<close>.\<close>

definition addNote ::
  "('i \<Rightarrow> string) \<Rightarrow> 'i \<Rightarrow> string \<Rightarrow> int \<Rightarrow> string \<Rightarrow> 'i hub \<Rightarrow> 'i hub \<times> 'i storage_op list"
where
  "addNote str docId note now stamp st =
     (let docNotes = (case notes' st (str docId) of None \<Rightarrow> [] | Some ns \<Rightarrow> ns);
          newNote = \<lparr>Note.id' = now, text' = note, timestamp = stamp\<rparr>;
          updated = docNotes @ [newNote]
      in (st\<lparr>notes' := (notes' st)(str docId \<mapsto> updated)\<rparr>,
          [Storage_set (''notes:'' @ str docId) (Notes updated)]))"

definition linkDocuments ::
  "('i \<Rightarrow> string) \<Rightarrow> 'i \<Rightarrow> string \<Rightarrow> 'i hub \<Rightarrow> 'i hub \<times> 'i storage_op list"
where
  "linkDocuments str docId linkedDocId st =
     (let docLinks = (case links st (str docId) of None \<Rightarrow> [] | Some ls \<Rightarrow> ls) in
      if linkedDocId \<notin> set docLinks
      then (let updated = docLinks @ [linkedDocId]
            in (st\<lparr>links := (links st)(str docId \<mapsto> updated)\<rparr>,
                [Storage_set (''links:'' @ str docId) (Links updated)]))
      else (st, []))"

definition deleteDocument ::
  "('i \<Rightarrow> string) \<Rightarrow> 'i \<Rightarrow> 'i hub \<Rightarrow> 'i hub \<times> 'i storage_op list"
where
  "deleteDocument str docId st =
     (let st1 = st\<lparr>documents := filter (\<lambda>d. id' d \<noteq> docId) (documents st)\<rparr>;
          ops = [Storage_delete (''doc:'' @ str docId),
                 Storage_delete (''notes:'' @ str docId),
                 Storage_delete (''links:'' @ str docId)]
      in (case selectedDoc st1 of
            None \<Rightarrow> (st1, ops)
          | Some sel \<Rightarrow>
              if id' sel = docId then (st1\<lparr>selectedDoc := None\<rparr>, ops) else (st1, ops)))"

definition addTag ::
  "('i \<Rightarrow> string) \<Rightarrow> 'i \<Rightarrow> string \<Rightarrow> 'i hub \<Rightarrow> 'i hub \<times> 'i storage_op list"
where
  "addTag str docId tag st =
     (let updated =
            map (\<lambda>d. if id' d = docId \<and> tag \<notin> set (tags d)
                      then d\<lparr>tags := tags d @ [tag]\<rparr> else d)
              (documents st);
          doc = find (\<lambda>d. id' d = docId) updated
      in (st\<lparr>documents := updated\<rparr>,
          [Storage_set (''doc:'' @ str docId)
             (case doc of None \<Rightarrow> Undefined | Some d \<Rightarrow> Doc d)]))"

subsection \<open>Search and filter\<close>

text \<open>The callback of \<^verbatim>\<open>documents.filter\<close>. The optional chaining on \<^verbatim>\<open>summary\<close> and
  \<^verbatim>\<open>keywords\<close> guards fields that a document of this type always has. The filter tag is
  falsy when it is the empty string.\<close>

definition matchesSearch :: "string \<Rightarrow> 'i document \<Rightarrow> bool" where
  "matchesSearch term doc =
     (includes' (toLowerCase (title doc)) (toLowerCase term)
      \<or> includes' (toLowerCase (summary doc)) (toLowerCase term)
      \<or> list_ex (\<lambda>k. includes' (toLowerCase k) (toLowerCase term)) (keywords' doc))"

definition matchesTag :: "string \<Rightarrow> 'i document \<Rightarrow> bool" where
  "matchesTag ftag doc = (ftag = [] \<or> ftag \<in> set (tags doc))"

definition filteredDocs :: "'i hub \<Rightarrow> 'i document list" where
  "filteredDocs st =
     filter (\<lambda>doc. matchesSearch (searchTerm st) doc \<and> matchesTag (filterTag st) doc)
       (documents st)"

subsection \<open>Notions the statements below are phrased in\<close>

text \<open>The record a key holds, in the words of the specification of loading: a key whose
  value is missing or fails to parse holds none.\<close>

definition valid_record ::
  "(string \<Rightarrow> js_error + string option) \<Rightarrow> (string \<Rightarrow> js_error + 'v) \<Rightarrow> string \<Rightarrow> 'v option"
where
  "valid_record g parse key =
     (case g key of
        Inr (Some v) \<Rightarrow>
          (if v = [] then None else (case parse v of Inr x \<Rightarrow> Some x | Inl e \<Rightarrow> None))
      | _ \<Rightarrow> None)"

text \<open>The keys of a listing; a listing without \<^verbatim>\<open>keys\<close> has none.\<close>

definition listed :: "string list option \<Rightarrow> string list" where
  "listed data = (case data of None \<Rightarrow> [] | Some keys \<Rightarrow> keys)"

text \<open>\<^verbatim>\<open>notes[k] || []\<close> and \<^verbatim>\<open>links[k] || []\<close>\<close>

definition notes_of :: "'i hub \<Rightarrow> string \<Rightarrow> Note list" where
  "notes_of st k = (case notes' st k of None \<Rightarrow> [] | Some ns \<Rightarrow> ns)"

definition links_of :: "'i hub \<Rightarrow> string \<Rightarrow> string list" where
  "links_of st k = (case links st k of None \<Rightarrow> [] | Some ls \<Rightarrow> ls)"

text \<open>The condition the link list of a document is kept in: no target twice, and, once the
  document has a list, the store holds that list under its key.\<close>

definition links_in_sync :: "('i \<Rightarrow> string) \<Rightarrow> 'i \<Rightarrow> 'i hub \<times> 'i store \<Rightarrow> bool" where
  "links_in_sync str docId ms =
     (distinct (links_of (fst ms) (str docId))
      \<and> (links (fst ms) (str docId) = None
          \<or> snd ms (''links:'' @ str docId) = Some (Links (links_of (fst ms) (str docId)))))"

text \<open>A sequence of \<^verbatim>\<open>addNote\<close> calls against one document, each with the note text, the
  clock reading and the time stamp of the call.\<close>

fun addNotes ::
  "('i \<Rightarrow> string) \<Rightarrow> 'i \<Rightarrow> (string \<times> int \<times> string) list \<Rightarrow> 'i hub \<Rightarrow> 'i hub \<times> 'i storage_op list"
where
  "addNotes str docId [] st = (st, [])"
| "addNotes str docId ((note, now, stamp) # calls) st =
     (case addNote str docId note now stamp st of
        (st1, ops1) \<Rightarrow>
          (case addNotes str docId calls st1 of (st2, ops2) \<Rightarrow> (st2, ops1 @ ops2)))"

text \<open>The search predicate in the words of the specification: the term occurs in a field
  when some contiguous part of the field equals the term letter by letter, case ignored.\<close>

definition same_letter :: "char \<Rightarrow> char \<Rightarrow> bool" where
  "same_letter a b = (lower_char a = lower_char b)"

definition ci_substring :: "string \<Rightarrow> string \<Rightarrow> bool" where
  "ci_substring t s = (\<exists>pre mid suf. s = pre @ mid @ suf \<and> list_all2 same_letter mid t)"

definition spec_matches :: "string \<Rightarrow> string \<Rightarrow> 'i document \<Rightarrow> bool" where
  "spec_matches term ftag doc =
     ((ci_substring term (title doc) \<or> ci_substring term (summary doc)
         \<or> (\<exists>k \<in> set (keywords' doc). ci_substring term k))
      \<and> (ftag = [] \<or> ftag \<in> set (tags doc)))"

text \<open>The final extension of a file name, in the words of the specification: what follows
  the last dot, when it is not empty and holds no slash.\<close>

definition has_extension :: "string \<Rightarrow> string \<Rightarrow> string \<Rightarrow> bool" where
  "has_extension n base ext = (n = base @ ''.'' @ ext \<and> ext \<noteq> [] \<and> list_all ext_char ext)"

subsection \<open>Concrete instances\<close>

text \<open>Identifiers are natural numbers here, written in decimal.\<close>

text \<open>The initial state of the component.\<close>

definition initial :: "nat hub" where
  "initial =
     \<lparr>documents = [], selectedDoc = None, searchTerm = [], filterTag = [],
      isAnalyzing = False, showUpload = False, notes' = Map.empty, links = Map.empty\<rparr>"

definition graph_theory :: analysis where
  "graph_theory =
     \<lparr>summary = ''Meeting about graph theory'', keywords' = [''graph'', ''theory''],
      entities = [''Alice'', ''Bob''], topic = ''Mathematics''\<rparr>"

text \<open>A service whose answer carries one text block, fenced.\<close>

definition answer :: js_value where
  "answer =
     JObj [(''content'',
            JArr [JObj [(''type'', JStr ''text''), (''text'', JStr ''```json graph theory ```'')]])]"

definition stub_parse :: "string \<Rightarrow> js_error + analysis" where
  "stub_parse s = (if s = ''graph theory'' then Inr graph_theory else Inl SyntaxError)"

definition stub_service :: service where
  "stub_service =
     \<lparr>fetch = (\<lambda>ttl text. Inr \<lparr>status = 200, json = Inr answer\<rparr>),
      JSON_parse = stub_parse, ToString = (\<lambda>v. [])\<rparr>"

text \<open>The same answer under an error status, and a service that is unreachable.\<close>

definition server_error :: response where
  "server_error = \<lparr>status = 500, json = Inr answer\<rparr>"

definition failing_service :: service where
  "failing_service =
     \<lparr>fetch = (\<lambda>ttl text. Inr server_error), JSON_parse = stub_parse, ToString = (\<lambda>v. [])\<rparr>"

definition unreachable_service :: service where
  "unreachable_service =
     \<lparr>fetch = (\<lambda>ttl text. Inl NetworkError), JSON_parse = stub_parse, ToString = (\<lambda>v. [])\<rparr>"

definition notes_txt :: File where
  "notes_txt = \<lparr>name = ''notes.txt'', type' = ''text/plain''\<rparr>"

text \<open>\<^verbatim>\<open>JSON.parse\<close> on the text of the stub service: the analysis of the four fields, the
  same with a title and tags of its own, and \<^verbatim>\<open>null\<close>.\<close>

definition shaped_parse :: "string \<Rightarrow> js_error + js_value" where
  "shaped_parse s =
     (if s = ''graph theory'' then Inr (analysis_value graph_theory) else Inl SyntaxError)"

definition titled_answer :: js_value where
  "titled_answer =
     JObj [(''summary'', JStr ''Meeting about graph theory''),
           (''keywords'', JArr [JStr ''graph'', JStr ''theory'']),
           (''entities'', JArr [JStr ''Alice'', JStr ''Bob'']),
           (''topic'', JStr ''Mathematics''),
           (''title'', JStr ''Graphs''),
           (''tags'', JArr [JStr ''Mathematics'', JStr ''Graph theory''])]"

definition titled_parse :: "string \<Rightarrow> js_error + js_value" where
  "titled_parse s = (if s = ''graph theory'' then Inr titled_answer else Inl SyntaxError)"

definition null_parse :: "string \<Rightarrow> js_error + js_value" where
  "null_parse s = (if s = ''graph theory'' then Inr JNull else Inl SyntaxError)"

definition quantum :: "nat document" where
  "quantum =
     \<lparr>summary = ''Qubits and gates'', keywords' = [''qubit''], entities = [],
      topic = ''Physics'',
      id' = 7, title = ''Quantum Computing'', content = ''Alice met Bob to discuss graph theory.'',
      uploadDate = ''2024-01-01T00:00:00.000Z'', fileType = ''text/plain'',
      tags = [''Physics'', ''mine'']\<rparr>"

definition baking :: "nat document" where
  "baking =
     \<lparr>summary = ''Bread'', keywords' = [''flour''], entities = [],
      topic = ''Food'',
      id' = 8, title = ''Baking'', content = ''Knead.'',
      uploadDate = ''2024-01-02T00:00:00.000Z'', fileType = ''text/plain'',
      tags = [''Food'']\<rparr>"

definition library :: "nat hub" where
  "library = initial\<lparr>documents := [quantum, baking]\<rparr>"

text \<open>A store listing two keys per namespace, the first of each unparsable.\<close>

definition two_keys :: "nat storage" where
  "two_keys =
     \<lparr>list' = (\<lambda>p. Inr (Some [p @ ''1'', p @ ''2''])),
      get = (\<lambda>key. Inr (Some (if key = ''doc:1'' \<or> key = ''notes:1'' \<or> key = ''links:1''
                                 then ''{'' else key))),
      parse_document = (\<lambda>v. if v = ''doc:2'' then Inr baking else Inl SyntaxError),
      parse_notes = (\<lambda>v. if v = ''notes:2'' then Inr [] else Inl SyntaxError),
      parse_links = (\<lambda>v. if v = ''links:2'' then Inr [''7''] else Inl SyntaxError)\<rparr>"

text \<open>The library after \<^verbatim>\<open>regenerateAnalysis\<close> of its first document, run against an empty
  store.\<close>

definition regenerated :: "nat hub \<times> nat store" where
  "regenerated = run (regenerateAnalysis decimal stub_service quantum) (library, Map.empty)"

text \<open>The initial state after one link from document 7 to document 8, and a store that
  holds the two documents of the library as memory has them.\<close>

definition linked :: "nat hub \<times> nat store" where
  "linked = run (linkDocuments decimal 7 ''8'') (initial, Map.empty)"

definition library_store :: "nat store" where
  "library_store = [''doc:7'' \<mapsto> Doc quantum, ''doc:8'' \<mapsto> Doc baking]"

section \<open>Properties\<close>

subsection \<open>The concrete instances evaluated\<close>

lemma stub_text: "text_content ts answer = Inr ''```json graph theory ```''"
  by (simp add: text_content_def answer_def property_def item_text_def join_def join_piece_def)

lemma stub_analysis: "analyzeDocument stub_service text ttl = Inr graph_theory"
  by (simp add: analyzeDocument_def analyzeDocument_try_def stub_service_def stub_text
      trim_def is_space_def stub_parse_def)

lemma decimal_7: "decimal 7 = ''7''"
  by code_simp

lemma regenerated_eq:
  "regenerated =
     (library\<lparr>documents := [(spread quantum graph_theory)\<lparr>tags := [''Mathematics'', ''mine'']\<rparr>, baking]\<rparr>,
      [''doc:7'' \<mapsto> Doc (spread quantum graph_theory)])"
  by (simp add: regenerated_def run_def regenerateAnalysis_def stub_analysis Let_def persist_def
      decimal_7 library_def initial_def quantum_def baking_def graph_theory_def spread_def)

lemma linked_eq:
  "linked = (initial\<lparr>links := [''7'' \<mapsto> [''8'']]\<rparr>, [''links:7'' \<mapsto> Links [''8'']])"
  by (simp add: linked_def run_def linkDocuments_def Let_def persist_def decimal_7 initial_def)

subsection \<open>The claims\<close>

lemma analyzeDocument_returns: "\<exists>a. analyzeDocument env text ttl = Inr a"
  by (simp add: analyzeDocument_def split: sum.split)

lemma regenerateAnalysis_documents:
  assumes "analyzeDocument env (content doc) (title doc) = Inr a"
  shows "documents (fst (regenerateAnalysis str env doc st)) =
         map (\<lambda>d. if id' d = id' doc then (spread d a)\<lparr>tags := topic a # drop 1 (tags d)\<rparr> else d)
           (documents st)"
  using assms by (simp add: regenerateAnalysis_def Let_def split: option.split)

lemma regenerateAnalysis_ops:
  assumes "analyzeDocument env (content doc) (title doc) = Inr a"
  shows "snd (regenerateAnalysis str env doc st) =
         [Storage_set (''doc:'' @ str (id' doc)) (Doc (spread doc a))]"
  using assms by (simp add: regenerateAnalysis_def Let_def split: option.split)

text \<open>Claim C2. After \<^verbatim>\<open>regenerateAnalysis\<close>, every document of the in-memory list that
  has the identifier of the regenerated one carries the new topic as its first tag, and its
  tags from the second on are those it had before, in order.\<close>

theorem regenerateAnalysis_tags:
  assumes "analyzeDocument env (content doc) (title doc) = Inr a"
    and "i < length (documents st)"
    and "id' (documents st ! i) = id' doc"
  shows "tags (documents (fst (regenerateAnalysis str env doc st)) ! i) ! 0 = topic a
       \<and> drop 1 (tags (documents (fst (regenerateAnalysis str env doc st)) ! i))
           = drop 1 (tags (documents st ! i))"
  using assms by (simp add: regenerateAnalysis_documents)

theorem regenerateAnalysis_tags_witness:
  "analyzeDocument stub_service (content quantum) (title quantum) = Inr graph_theory
   \<and> 0 < length (documents library)
   \<and> id' (documents library ! 0) = id' quantum
   \<and> tags (documents (fst (regenerateAnalysis decimal stub_service quantum library)) ! 0) ! 0
       = ''Mathematics''
   \<and> drop 1 (tags (documents (fst (regenerateAnalysis decimal stub_service quantum library)) ! 0))
       = [''mine'']"
proof -
  have h1: "analyzeDocument stub_service (content quantum) (title quantum) = Inr graph_theory"
    by (rule stub_analysis)
  have h2: "0 < length (documents library)" and h3: "id' (documents library ! 0) = id' quantum"
    by (simp_all add: library_def initial_def)
  have old: "tags (documents library ! 0) = [''Physics'', ''mine'']"
    by (simp add: library_def initial_def quantum_def)
  show ?thesis
    using regenerateAnalysis_tags [OF h1 h2 h3, of decimal] h1 h2 h3
    by (simp add: old graph_theory_def)
qed

text \<open>Claim C10. When the link list of \<open>docId\<close> already holds the target,
  \<^verbatim>\<open>linkDocuments\<close> issues no storage operation and returns the state it was given.\<close>

theorem linkDocuments_duplicate:
  assumes "links st (str docId) = Some ls" and "linkedDocId \<in> set ls"
  shows "linkDocuments str docId linkedDocId st = (st, [])"
  using assms by (simp add: linkDocuments_def)

theorem linkDocuments_duplicate_witness:
  "links (fst linked) (decimal 7) = Some [''8'']
   \<and> ''8'' \<in> set [''8'']
   \<and> linkDocuments decimal 7 ''8'' (fst linked) = (fst linked, [])"
proof -
  have h1: "links (fst linked) (decimal 7) = Some [''8'']"
    by (simp add: linked_eq decimal_7)
  have h2: "''8'' \<in> set [''8'']"
    by simp
  show ?thesis
    using linkDocuments_duplicate [where str = decimal and docId = 7 and st = "fst linked"
        and ls = "[''8'']" and linkedDocId = "''8''"] h1 h2
    by simp
qed

lemma linkDocuments_fresh:
  assumes "linkedDocId \<notin> set (case links st (str docId) of None \<Rightarrow> [] | Some ls \<Rightarrow> ls)"
  shows "linkDocuments str docId linkedDocId st =
         (st\<lparr>links := (links st)(str docId \<mapsto> (case links st (str docId) of None \<Rightarrow> [] | Some ls \<Rightarrow> ls) @ [linkedDocId])\<rparr>,
          [Storage_set (''links:'' @ str docId) (Links ((case links st (str docId) of None \<Rightarrow> [] | Some ls \<Rightarrow> ls) @ [linkedDocId]))])"
  using assms by (simp add: linkDocuments_def Let_def)

text \<open>The condition holds at the start and every call keeps it, so the lists the next
  statement starts from are those the handler itself produces.\<close>

lemma links_in_sync_initial: "links_in_sync str docId (initial, Map.empty)"
  by (simp add: links_in_sync_def links_of_def initial_def)

lemma links_in_sync_linkDocuments:
  assumes "links_in_sync str docId ms"
  shows "links_in_sync str docId (run (linkDocuments str docId linkedDocId) ms)"
proof (cases "linkedDocId \<in> set (links_of (fst ms) (str docId))")
  case True
  then have "linkDocuments str docId linkedDocId (fst ms) = (fst ms, [])"
    by (simp add: linkDocuments_def links_of_def)
  then have "run (linkDocuments str docId linkedDocId) ms = ms"
    by (simp add: run_def persist_def)
  then show ?thesis using assms by simp
next
  case False
  then have "linkDocuments str docId linkedDocId (fst ms) =
      ((fst ms)\<lparr>links := (links (fst ms))(str docId \<mapsto> links_of (fst ms) (str docId) @ [linkedDocId])\<rparr>,
       [Storage_set (''links:'' @ str docId) (Links (links_of (fst ms) (str docId) @ [linkedDocId]))])"
    unfolding links_of_def by (rule linkDocuments_fresh)
  then have "run (linkDocuments str docId linkedDocId) ms =
      ((fst ms)\<lparr>links := (links (fst ms))(str docId \<mapsto> links_of (fst ms) (str docId) @ [linkedDocId])\<rparr>,
       (snd ms)(''links:'' @ str docId \<mapsto> Links (links_of (fst ms) (str docId) @ [linkedDocId])))"
    by (simp add: run_def persist_def)
  moreover have "distinct (links_of (fst ms) (str docId) @ [linkedDocId])"
    using assms False by (simp add: links_in_sync_def)
  ultimately show ?thesis
    by (simp add: links_in_sync_def links_of_def)
qed

lemma distinct_count_le_1: "distinct xs \<Longrightarrow> count_list xs x \<le> 1"
  by (induction xs) auto

lemma links_in_sync_once:
  assumes "links_in_sync str docId (st, store)"
  shows "count_list (links_of st (str docId)) linkedDocId \<le> 1"
    and "linkedDocId \<in> set (links_of st (str docId))
           \<longrightarrow> store (''links:'' @ str docId) = Some (Links (links_of st (str docId)))"
proof -
  have d: "distinct (links_of st (str docId))"
    using assms by (simp add: links_in_sync_def)
  show "count_list (links_of st (str docId)) linkedDocId \<le> 1"
    using d by (rule distinct_count_le_1)
  show "linkedDocId \<in> set (links_of st (str docId))
           \<longrightarrow> store (''links:'' @ str docId) = Some (Links (links_of st (str docId)))"
    using assms by (auto simp: links_in_sync_def links_of_def)
qed

text \<open>Claim C5. Two calls of \<^verbatim>\<open>linkDocuments\<close> in a row, with the same arguments, leave
  the target exactly once in the link list of \<open>docId\<close>, in memory and under
  \<^verbatim>\<open>links:<docId>\<close> in the store, and the second call changes nothing and writes nothing. The
  list the calls start from holds the target at most once and, when it holds it, is the one
  the store has.\<close>

theorem linkDocuments_twice:
  assumes "count_list (links_of st (str docId)) linkedDocId \<le> 1"
    and "linkedDocId \<in> set (links_of st (str docId))
           \<longrightarrow> store (''links:'' @ str docId) = Some (Links (links_of st (str docId)))"
  shows "\<exists>ls. links (fst (run (linkDocuments str docId linkedDocId) (run (linkDocuments str docId linkedDocId) (st, store)))) (str docId) = Some ls
            \<and> count_list ls linkedDocId = 1
            \<and> snd (run (linkDocuments str docId linkedDocId) (run (linkDocuments str docId linkedDocId) (st, store))) (''links:'' @ str docId) = Some (Links ls)
            \<and> run (linkDocuments str docId linkedDocId) (run (linkDocuments str docId linkedDocId) (st, store))
                = run (linkDocuments str docId linkedDocId) (st, store)
            \<and> snd (linkDocuments str docId linkedDocId (fst (run (linkDocuments str docId linkedDocId) (st, store)))) = []"
proof (cases "linkedDocId \<in> set (links_of st (str docId))")
  case True
  then obtain ls where ls: "links st (str docId) = Some ls" "linkedDocId \<in> set ls"
    and lo: "links_of st (str docId) = ls"
    by (cases "links st (str docId)") (auto simp: links_of_def)
  have same: "linkDocuments str docId linkedDocId st = (st, [])"
    using ls by (simp add: linkDocuments_def)
  have r: "run (linkDocuments str docId linkedDocId) (st, store) = (st, store)"
    by (simp add: run_def same persist_def)
  have "count_list ls linkedDocId \<noteq> 0"
    using ls(2) by (simp add: count_list_0_iff)
  moreover have "count_list ls linkedDocId \<le> 1"
    using assms(1) by (simp only: lo)
  ultimately have one: "count_list ls linkedDocId = 1"
    by simp
  have kept: "store (''links:'' @ str docId) = Some (Links ls)"
    using assms(2) True by (simp only: lo)
  show ?thesis
    using ls(1) one kept by (simp add: r same)
next
  case False
  define old where "old = links_of st (str docId)"
  define st1 where "st1 = st\<lparr>links := (links st)(str docId \<mapsto> old @ [linkedDocId])\<rparr>"
  have fresh: "linkedDocId \<notin> set old"
    using False unfolding old_def .
  have first: "linkDocuments str docId linkedDocId st =
        (st1, [Storage_set (''links:'' @ str docId) (Links (old @ [linkedDocId]))])"
    using fresh unfolding old_def st1_def links_of_def by (rule linkDocuments_fresh)
  have r1: "run (linkDocuments str docId linkedDocId) (st, store) =
        (st1, store(''links:'' @ str docId \<mapsto> Links (old @ [linkedDocId])))"
    by (simp add: run_def first persist_def)
  have same: "linkDocuments str docId linkedDocId st1 = (st1, [])"
    by (simp add: linkDocuments_def st1_def)
  have c: "count_list old linkedDocId = 0"
    using fresh by (simp add: count_list_0_iff)
  have l: "links st1 (str docId) = Some (old @ [linkedDocId])"
    by (simp add: st1_def)
  show ?thesis
    unfolding r1 by (simp add: run_def same persist_def c l)
qed

theorem linkDocuments_twice_witness:
  "count_list (links_of initial (decimal 7)) ''8'' \<le> 1
   \<and> ''8'' \<notin> set (links_of initial (decimal 7))
   \<and> links (fst (run (linkDocuments decimal 7 ''8'') (run (linkDocuments decimal 7 ''8'') (initial, Map.empty)))) ''7''
        = Some [''8'']
   \<and> snd (run (linkDocuments decimal 7 ''8'') (run (linkDocuments decimal 7 ''8'') (initial, Map.empty))) ''links:7''
        = Some (Links [''8''])"
proof -
  have e: "links_of initial (decimal 7) = []"
    by (simp add: links_of_def initial_def)
  have h1: "count_list (links_of initial (decimal 7)) ''8'' \<le> 1"
    by (simp add: e)
  have h2: "''8'' \<in> set (links_of initial (decimal 7))
        \<longrightarrow> Map.empty (''links:'' @ decimal 7) = Some (Links (links_of initial (decimal 7)))"
    by (simp add: e)
  have once: "run (linkDocuments decimal 7 ''8'') (initial, Map.empty) = linked"
    by (simp add: linked_def)
  have "run (linkDocuments decimal 7 ''8'') (run (linkDocuments decimal 7 ''8'') (initial, Map.empty))
      = run (linkDocuments decimal 7 ''8'') (initial, Map.empty)"
    using linkDocuments_twice [where str = decimal and docId = 7 and st = initial
        and store = Map.empty and linkedDocId = "''8''"] h1 h2
    by blast
  then have "run (linkDocuments decimal 7 ''8'') (run (linkDocuments decimal 7 ''8'') (initial, Map.empty))
      = linked"
    by (simp only: once)
  then show ?thesis
    using h1 by (simp add: linked_eq e)
qed

lemma strip_extension_split:
  assumes "ext \<noteq> []" and "list_all ext_char ext"
  shows "strip_extension (base @ ''.'' @ ext) = base"
  using assms
proof (induction base)
  case Nil
  then show ?case by simp
next
  case (Cons c base)
  have "\<not> list_all ext_char (base @ ''.'' @ ext)"
    by (simp add: ext_char_def)
  with Cons show ?case by simp
qed

lemma strip_extension_has:
  assumes "has_extension n base ext"
  shows "strip_extension n = base"
proof -
  from assms have n: "n = base @ ''.'' @ ext" and e: "ext \<noteq> []" "list_all ext_char ext"
    unfolding has_extension_def by blast+
  show ?thesis unfolding n using e by (rule strip_extension_split)
qed

lemma strip_extension_none:
  assumes "\<And>base ext. \<not> has_extension n base ext"
  shows "strip_extension n = n"
  using assms
proof (induction n)
  case Nil
  then show ?case by simp
next
  case (Cons c cs)
  have no: "\<not> (c = CHR ''.'' \<and> cs \<noteq> [] \<and> list_all ext_char cs)"
    using Cons.prems [of "[]" cs] by (auto simp: has_extension_def)
  have "\<not> has_extension cs base ext" for base ext
    using Cons.prems [of "c # base" ext] by (simp add: has_extension_def)
  then have "strip_extension cs = cs" by (rule Cons.IH)
  with no show ?case by auto
qed

lemma newDoc_null: "newDoc f text JNull new_id now = Inl TypeError"
  by (simp add: newDoc_def property_def)

lemma property_not_null: "analysis \<noteq> JNull \<Longrightarrow> \<exists>t. property analysis ''topic'' = Inr t"
  by (cases analysis) (simp_all add: property_def)

lemma fallback_value_shaped: "fallback_value = analysis_value fallback"
  by (simp add: fallback_value_def analysis_value_def fallback_def)

lemma newDoc_shaped:
  "newDoc f text (analysis_value a) new_id now =
     Inr (object_of
       \<lparr>summary = summary a, keywords' = keywords' a, entities = entities a, topic = topic a,
        id' = new_id, title = strip_extension (name f), content = text,
        uploadDate = now, fileType = type' f, tags = [topic a]\<rparr>)"
  by (auto simp: newDoc_def property_def analysis_value_def object_of_def map_add_def fun_eq_iff)

lemma onload_null:
  assumes "analyzeDocument_value parse env
             (if type' f = ''application/pdf'' then pdf_notice (name f) else result) (name f) = JNull"
  shows "onload parse env f result new_id now prev = Inl TypeError"
  using assms by (simp add: onload_def Let_def newDoc_null)

lemma stub_value:
  "analyzeDocument_value parse stub_service text ttl
     = (case parse ''graph theory'' of Inr v \<Rightarrow> v | Inl e \<Rightarrow> fallback_value)"
  by (simp add: analyzeDocument_value_def analyzeDocument_value_try_def stub_service_def stub_text
      trim_def is_space_def)

text \<open>Claim C7, amended. For every file whose analysis is not \<^verbatim>\<open>null\<close>, \<^verbatim>\<open>onload\<close> builds
  a document, appends it and writes it under \<^verbatim>\<open>doc:<id>\<close>. When the analysis has no key
  \<^verbatim>\<open>tags\<close>, the tag list of the document is the one-element list of the topic of the
  analysis. When the analysis has no key \<^verbatim>\<open>title\<close>, the title of the document is the file
  name without its final extension: the part before the last dot when the name has an
  extension, the whole name when it has none.\<close>

theorem onload_document:
  assumes "analysis = analyzeDocument_value parse env
             (if type' f = ''application/pdf'' then pdf_notice (name f) else result) (name f)"
    and "analysis \<noteq> JNull"
  shows "\<exists>d t. onload parse env f result new_id now prev
             = Inr (prev @ [d],
                    [(''doc:'' @ template (ToString env) (newDoc_id analysis new_id), d)])
       \<and> property analysis ''topic'' = Inr t
       \<and> (map_of (own_properties analysis) ''tags'' = None \<longrightarrow> tags_of d = Some [t])
       \<and> (map_of (own_properties analysis) ''title'' = None \<longrightarrow>
            d ''title'' = Some (Json (JStr (strip_extension (name f))))
            \<and> (\<forall>base ext. has_extension (name f) base ext
                  \<longrightarrow> d ''title'' = Some (Json (JStr base)))
            \<and> ((\<forall>base ext. \<not> has_extension (name f) base ext)
                  \<longrightarrow> d ''title'' = Some (Json (JStr (name f)))))"
proof -
  define input where "input = (if type' f = ''application/pdf'' then pdf_notice (name f) else result)"
  have an: "analyzeDocument_value parse env input (name f) = analysis"
    using assms(1) by (simp add: input_def)
  obtain t where t: "property analysis ''topic'' = Inr t"
    using property_not_null [OF assms(2)] by blast
  define d where "d =
      [''id'' \<mapsto> Json (JNum new_id),
       ''title'' \<mapsto> Json (JStr (strip_extension (name f))),
       ''content'' \<mapsto> Json (JStr input),
       ''uploadDate'' \<mapsto> Json (JStr now),
       ''fileType'' \<mapsto> Json (JStr (type' f)),
       ''tags'' \<mapsto> Array [t]]
      ++ (\<lambda>k. map_option Json (map_of (own_properties analysis) k))"
  have d: "newDoc f input analysis new_id now = Inr d"
    by (simp add: newDoc_def t d_def)
  have tg: "map_of (own_properties analysis) ''tags'' = None \<longrightarrow> d ''tags'' = Some (Array [t])"
    by (simp add: d_def map_add_def)
  have ti: "map_of (own_properties analysis) ''title'' = None
             \<longrightarrow> d ''title'' = Some (Json (JStr (strip_extension (name f))))"
    by (simp add: d_def map_add_def)
  have run: "onload parse env f result new_id now prev
      = Inr (prev @ [d], [(''doc:'' @ template (ToString env) (newDoc_id analysis new_id), d)])"
    by (simp add: onload_def Let_def input_def [symmetric] an d)
  have tags: "map_of (own_properties analysis) ''tags'' = None \<longrightarrow> tags_of d = Some [t]"
    using tg by (simp add: tags_of_def array_of_def)
  have title: "map_of (own_properties analysis) ''title'' = None \<longrightarrow>
            d ''title'' = Some (Json (JStr (strip_extension (name f))))
            \<and> (\<forall>base ext. has_extension (name f) base ext
                  \<longrightarrow> d ''title'' = Some (Json (JStr base)))
            \<and> ((\<forall>base ext. \<not> has_extension (name f) base ext)
                  \<longrightarrow> d ''title'' = Some (Json (JStr (name f))))"
  proof (intro impI conjI allI)
    assume "map_of (own_properties analysis) ''title'' = None"
    with ti show e: "d ''title'' = Some (Json (JStr (strip_extension (name f))))"
      by (rule mp)
    {
      fix base ext
      assume "has_extension (name f) base ext"
      then have "strip_extension (name f) = base"
        by (rule strip_extension_has)
      with e show "d ''title'' = Some (Json (JStr base))"
        by (simp only:)
    }
    {
      assume "\<forall>base ext. \<not> has_extension (name f) base ext"
      then have "\<not> has_extension (name f) base ext" for base ext
        by (simp only: not_False_eq_True)
      then have "strip_extension (name f) = name f"
        by (rule strip_extension_none)
      with e show "d ''title'' = Some (Json (JStr (name f)))"
        by (simp only:)
    }
  qed
  from run t tags title show ?thesis
    by (intro exI [of _ d] exI [of _ t] conjI)
qed

theorem onload_document_witness:
  "analyzeDocument_value shaped_parse stub_service
       (if type' notes_txt = ''application/pdf'' then pdf_notice (name notes_txt)
        else ''Alice met Bob to discuss graph theory.'') (name notes_txt)
     = analysis_value graph_theory
   \<and> analysis_value graph_theory \<noteq> JNull
   \<and> map_of (own_properties (analysis_value graph_theory)) ''tags'' = None
   \<and> map_of (own_properties (analysis_value graph_theory)) ''title'' = None
   \<and> has_extension (name notes_txt) ''notes'' ''txt''
   \<and> tags_of (fst (projr (onload shaped_parse stub_service notes_txt
         ''Alice met Bob to discuss graph theory.'' 7 ''2024-01-01T00:00:00.000Z'' [])) ! 0)
       = Some [Some (JStr ''Mathematics'')]
   \<and> (fst (projr (onload shaped_parse stub_service notes_txt
         ''Alice met Bob to discuss graph theory.'' 7 ''2024-01-01T00:00:00.000Z'' [])) ! 0)
         ''title''
       = Some (Json (JStr ''notes''))"
proof -
  have h1: "analysis_value graph_theory = analyzeDocument_value shaped_parse stub_service
       (if type' notes_txt = ''application/pdf'' then pdf_notice (name notes_txt)
        else ''Alice met Bob to discuss graph theory.'') (name notes_txt)"
    by (simp add: stub_value shaped_parse_def)
  have h2: "analysis_value graph_theory \<noteq> JNull"
    by (simp add: analysis_value_def)
  have k1: "map_of (own_properties (analysis_value graph_theory)) ''tags'' = None"
    and k2: "map_of (own_properties (analysis_value graph_theory)) ''title'' = None"
    and tp: "property (analysis_value graph_theory) ''topic'' = Inr (Some (JStr ''Mathematics''))"
    by (simp_all add: analysis_value_def property_def graph_theory_def)
  have h: "has_extension (name notes_txt) ''notes'' ''txt''"
    by (simp add: has_extension_def notes_txt_def ext_char_def)
  from onload_document [OF h1 h2, of 7 "''2024-01-01T00:00:00.000Z''" "[]"]
  obtain d t where run: "onload shaped_parse stub_service notes_txt
         ''Alice met Bob to discuss graph theory.'' 7 ''2024-01-01T00:00:00.000Z'' []
        = Inr ([] @ [d], [(''doc:'' @ template (ToString stub_service)
                 (newDoc_id (analysis_value graph_theory) 7), d)])"
    and t: "property (analysis_value graph_theory) ''topic'' = Inr t"
    and tg: "map_of (own_properties (analysis_value graph_theory)) ''tags'' = None
               \<longrightarrow> tags_of d = Some [t]"
    and ti: "map_of (own_properties (analysis_value graph_theory)) ''title'' = None \<longrightarrow>
            d ''title'' = Some (Json (JStr (strip_extension (name notes_txt))))
            \<and> (\<forall>base ext. has_extension (name notes_txt) base ext
                  \<longrightarrow> d ''title'' = Some (Json (JStr base)))
            \<and> ((\<forall>base ext. \<not> has_extension (name notes_txt) base ext)
                  \<longrightarrow> d ''title'' = Some (Json (JStr (name notes_txt))))"
    by (elim exE conjE) (rule that)
  have "t = Some (JStr ''Mathematics'')"
    using t tp by simp
  with tg k1 have tags: "tags_of d = Some [Some (JStr ''Mathematics'')]"
    by simp
  from mp [OF ti k2] have "\<forall>base ext. has_extension (name notes_txt) base ext
                  \<longrightarrow> d ''title'' = Some (Json (JStr base))"
    by (elim conjE)
  with h have title: "d ''title'' = Some (Json (JStr ''notes''))"
    by (elim allE impE)
  show ?thesis
    using h1 h2 k1 k2 h tags title by (simp add: run)
qed

text \<open>Claim C7 as stated fails: the analysis is spread last into the literal, so an answer
  that carries a title and tags of its own gives the document those.\<close>

theorem onload_answer_overrides:
  "property titled_answer ''topic'' = Inr (Some (JStr ''Mathematics''))
   \<and> strip_extension (name notes_txt) = ''notes''
   \<and> \<not> isl (onload titled_parse stub_service notes_txt
         ''Alice met Bob to discuss graph theory.'' 7 ''2024-01-01T00:00:00.000Z'' [])
   \<and> tags_of (fst (projr (onload titled_parse stub_service notes_txt
         ''Alice met Bob to discuss graph theory.'' 7 ''2024-01-01T00:00:00.000Z'' [])) ! 0)
       = Some [Some (JStr ''Mathematics''), Some (JStr ''Graph theory'')]
   \<and> (fst (projr (onload titled_parse stub_service notes_txt
         ''Alice met Bob to discuss graph theory.'' 7 ''2024-01-01T00:00:00.000Z'' [])) ! 0)
         ''title''
       = Some (Json (JStr ''Graphs''))"
  by (simp add: onload_def Let_def stub_value titled_parse_def titled_answer_def newDoc_def
      property_def tags_of_def array_of_def map_add_def notes_txt_def ext_char_def)

lemma includes_sublist: "includes' s t \<longleftrightarrow> sublist t s"
  by (induction s) (simp_all add: sublist_Cons_right)

lemma same_letter_map: "list_all2 same_letter xs ys \<longleftrightarrow> map lower_char xs = map lower_char ys"
proof -
  have "list_all2 same_letter xs ys \<longleftrightarrow> list_all2 (=) (map lower_char xs) (map lower_char ys)"
    by (simp add: list.rel_map same_letter_def [abs_def])
  then show ?thesis by (simp add: list.rel_eq)
qed

lemma includes_ci: "includes' (toLowerCase s) (toLowerCase t) \<longleftrightarrow> ci_substring t s"
proof
  assume "includes' (toLowerCase s) (toLowerCase t)"
  then obtain ps ss where "map lower_char s = ps @ map lower_char t @ ss"
    by (auto simp: includes_sublist sublist_def toLowerCase_def)
  then have "\<exists>pre rest. s = pre @ rest \<and> ps = map lower_char pre
      \<and> map lower_char t @ ss = map lower_char rest"
    by (simp only: map_eq_append_conv)
  then obtain pre rest where pre: "s = pre @ rest" "map lower_char rest = map lower_char t @ ss"
    by auto
  from pre(2) have "\<exists>mid suf. rest = mid @ suf \<and> map lower_char t = map lower_char mid
      \<and> ss = map lower_char suf"
    by (simp only: map_eq_append_conv)
  then obtain mid suf where mid: "rest = mid @ suf" "map lower_char mid = map lower_char t"
    by auto
  show "ci_substring t s"
    unfolding ci_substring_def using pre(1) mid by (auto simp: same_letter_map)
next
  assume "ci_substring t s"
  then obtain pre mid suf where "s = pre @ mid @ suf" "map lower_char mid = map lower_char t"
    by (auto simp: ci_substring_def same_letter_map)
  then have "map lower_char s = map lower_char pre @ map lower_char t @ map lower_char suf"
    by simp
  then show "includes' (toLowerCase s) (toLowerCase t)"
    unfolding includes_sublist toLowerCase_def sublist_def by blast
qed

lemma matches_spec: "matchesSearch term doc \<and> matchesTag ftag doc \<longleftrightarrow> spec_matches term ftag doc"
  by (simp add: matchesSearch_def matchesTag_def spec_matches_def includes_ci list_ex_iff)

text \<open>Claim C6. The filtered list holds exactly the documents, in order, for which the
  search term occurs, case ignored, in the title, the summary or some keyword, and the tag
  filter is empty or among the tags.\<close>

theorem filteredDocs_spec:
  "filteredDocs st = filter (spec_matches (searchTerm st) (filterTag st)) (documents st)"
  by (simp add: filteredDocs_def matches_spec)

theorem filteredDocs_spec_witness:
  "filter (spec_matches ''QUANT'' ''Physics'') [quantum, baking] = [quantum]"
proof -
  have "filteredDocs (library\<lparr>searchTerm := ''QUANT'', filterTag := ''Physics''\<rparr>) = [quantum]"
    by code_simp
  then show ?thesis
    using filteredDocs_spec [of "library\<lparr>searchTerm := ''QUANT'', filterTag := ''Physics''\<rparr>"]
    by (simp add: library_def)
qed

lemma load_docs_map_filter:
  "load_docs g parse keys loadedDocs = loadedDocs @ List.map_filter (valid_record g parse) keys"
proof (induction keys arbitrary: loadedDocs)
  case Nil
  then show ?case by simp
next
  case (Cons key keys)
  show ?case
    by (simp add: Cons.IH valid_record_def split: sum.split option.split)
qed

lemma replace_prefix: "prefix p k \<Longrightarrow> replace k p [] = drop (length p) k"
  by (cases k) auto

lemma drop_prefix_inj:
  assumes "prefix p k" and "prefix p k'" and "drop (length p) k = drop (length p) k'"
  shows "k = k'"
proof -
  from assms(1) have "k = p @ drop (length p) k" by (auto simp: prefix_def)
  moreover from assms(2) have "k' = p @ drop (length p) k'" by (auto simp: prefix_def)
  ultimately show ?thesis using assms(3) by metis
qed

lemma load_entries_step:
  "load_entries g parse p (key # keys) loaded =
     load_entries g parse p keys
       (case valid_record g parse key of None \<Rightarrow> loaded | Some x \<Rightarrow> loaded(replace key p [] \<mapsto> x))"
  by (simp add: valid_record_def split: sum.split option.split)

lemma load_entries_keeps:
  assumes "\<forall>k\<in>set keys. prefix p k" and "prefix p key"
    and "valid_record g parse key = Some v"
    and "loaded (drop (length p) key) = Some v"
  shows "load_entries g parse p keys loaded (drop (length p) key) = Some v"
  using assms
proof (induction keys arbitrary: loaded)
  case Nil
  then show ?case by simp
next
  case (Cons k keys)
  have pk: "prefix p k" using Cons.prems(1) by simp
  define next_loaded where "next_loaded =
    (case valid_record g parse k of None \<Rightarrow> loaded | Some x \<Rightarrow> loaded(replace k p [] \<mapsto> x))"
  have "next_loaded (drop (length p) key) = Some v"
  proof (cases "valid_record g parse k")
    case None
    then show ?thesis using Cons.prems(4) by (simp add: next_loaded_def)
  next
    case (Some x)
    show ?thesis
    proof (cases "drop (length p) k = drop (length p) key")
      case True
      then have "k = key" using pk Cons.prems(2) by (rule drop_prefix_inj [rotated 2])
      then show ?thesis
        using Some Cons.prems(2,3) by (simp add: next_loaded_def replace_prefix)
    next
      case False
      then show ?thesis using Some Cons.prems(4) by (simp add: next_loaded_def replace_prefix pk)
    qed
  qed
  moreover have "\<forall>k\<in>set keys. prefix p k" using Cons.prems(1) by simp
  ultimately have "load_entries g parse p keys next_loaded (drop (length p) key) = Some v"
    using Cons.prems(2,3) by (intro Cons.IH)
  then show ?case by (simp only: load_entries_step next_loaded_def)
qed

lemma load_entries_valid:
  assumes "\<forall>k\<in>set keys. prefix p k" and "key \<in> set keys"
    and "valid_record g parse key = Some v"
  shows "load_entries g parse p keys loaded (drop (length p) key) = Some v"
  using assms
proof (induction keys arbitrary: loaded)
  case Nil
  then show ?case by simp
next
  case (Cons k keys)
  have pk: "prefix p k" and rest: "\<forall>k\<in>set keys. prefix p k" using Cons.prems(1) by simp_all
  define next_loaded where "next_loaded =
    (case valid_record g parse k of None \<Rightarrow> loaded | Some x \<Rightarrow> loaded(replace k p [] \<mapsto> x))"
  have "load_entries g parse p keys next_loaded (drop (length p) key) = Some v"
  proof (cases "key \<in> set keys")
    case True
    with rest Cons.prems(3) show ?thesis by (intro Cons.IH)
  next
    case False
    then have k: "k = key" using Cons.prems(2) by simp
    have "next_loaded (drop (length p) key) = Some v"
      using Cons.prems(3) pk by (simp add: next_loaded_def k replace_prefix)
    moreover have "prefix p key" using pk k by simp
    ultimately show ?thesis using rest Cons.prems(3) by (intro load_entries_keeps)
  qed
  then show ?case by (simp only: load_entries_step next_loaded_def)
qed

lemma map_filter_member:
  "key \<in> set keys \<Longrightarrow> f key = Some v \<Longrightarrow> v \<in> set (List.map_filter f keys)"
  by (force simp: List.map_filter_def)

text \<open>Claim C4. When the three listings return, and the keys listed for notes and links
  start with their prefix, the documents loaded are those of the keys that hold a record, in
  the order listed, and every key that holds a record is loaded under its identifier, whatever
  the other keys of the namespace hold.\<close>

theorem loadData_skips_corrupted:
  assumes "list' s ''doc:'' = Inr docsData"
    and "list' s ''notes:'' = Inr notesData"
    and "list' s ''links:'' = Inr linksData"
    and "\<forall>k\<in>set (listed notesData). prefix ''notes:'' k"
    and "\<forall>k\<in>set (listed linksData). prefix ''links:'' k"
  shows "documents (loadData s st)
           = List.map_filter (valid_record (get s) (parse_document s)) (listed docsData)
       \<and> (\<forall>k\<in>set (listed docsData). \<forall>d. valid_record (get s) (parse_document s) k = Some d
             \<longrightarrow> d \<in> set (documents (loadData s st)))
       \<and> (\<forall>k\<in>set (listed notesData). \<forall>ns. valid_record (get s) (parse_notes s) k = Some ns
             \<longrightarrow> notes' (loadData s st) (drop 6 k) = Some ns)
       \<and> (\<forall>k\<in>set (listed linksData). \<forall>ls. valid_record (get s) (parse_links s) k = Some ls
             \<longrightarrow> links (loadData s st) (drop 6 k) = Some ls)"
proof -
  have d: "documents (loadData s st)
      = List.map_filter (valid_record (get s) (parse_document s)) (listed docsData)"
    using assms(1-3)
    by (simp add: loadData_def listed_def load_docs_map_filter split: option.split)
  have n: "notes' (loadData s st)
      = load_entries (get s) (parse_notes s) ''notes:'' (listed notesData) Map.empty"
    using assms(1-3) by (simp add: loadData_def listed_def split: option.split)
  have l: "links (loadData s st)
      = load_entries (get s) (parse_links s) ''links:'' (listed linksData) Map.empty"
    using assms(1-3) by (simp add: loadData_def listed_def split: option.split)
  have len1: "length ''notes:'' = 6" and len2: "length ''links:'' = 6"
    by simp_all
  have dm: "\<forall>k\<in>set (listed docsData). \<forall>d. valid_record (get s) (parse_document s) k = Some d
             \<longrightarrow> d \<in> set (documents (loadData s st))"
    unfolding d by (blast intro: map_filter_member)
  have nm: "\<forall>k\<in>set (listed notesData). \<forall>ns. valid_record (get s) (parse_notes s) k = Some ns
             \<longrightarrow> notes' (loadData s st) (drop 6 k) = Some ns"
    unfolding n len1 [symmetric] by (intro ballI allI impI load_entries_valid [OF assms(4)])
  have lm: "\<forall>k\<in>set (listed linksData). \<forall>ls. valid_record (get s) (parse_links s) k = Some ls
             \<longrightarrow> links (loadData s st) (drop 6 k) = Some ls"
    unfolding l len2 [symmetric] by (intro ballI allI impI load_entries_valid [OF assms(5)])
  from d dm nm lm show ?thesis by (intro conjI)
qed

theorem loadData_skips_corrupted_witness:
  "list' two_keys ''doc:'' = Inr (Some [''doc:1'', ''doc:2''])
   \<and> list' two_keys ''notes:'' = Inr (Some [''notes:1'', ''notes:2''])
   \<and> list' two_keys ''links:'' = Inr (Some [''links:1'', ''links:2''])
   \<and> valid_record (get two_keys) (parse_document two_keys) ''doc:1'' = None
   \<and> documents (loadData two_keys initial) = [baking]
   \<and> notes' (loadData two_keys initial) ''2'' = Some []
   \<and> links (loadData two_keys initial) ''2'' = Some [''7'']"
proof -
  have h1: "list' two_keys ''doc:'' = Inr (Some [''doc:1'', ''doc:2''])"
    and h2: "list' two_keys ''notes:'' = Inr (Some [''notes:1'', ''notes:2''])"
    and h3: "list' two_keys ''links:'' = Inr (Some [''links:1'', ''links:2''])"
    by (simp_all add: two_keys_def)
  have h4: "\<forall>k\<in>set (listed (Some [''notes:1'', ''notes:2''])). prefix ''notes:'' k"
    and h5: "\<forall>k\<in>set (listed (Some [''links:1'', ''links:2''])). prefix ''links:'' k"
    by (simp_all add: listed_def)
  have v1: "valid_record (get two_keys) (parse_document two_keys) ''doc:1'' = None"
    and v2: "valid_record (get two_keys) (parse_document two_keys) ''doc:2'' = Some baking"
    and v3: "valid_record (get two_keys) (parse_notes two_keys) ''notes:2'' = Some []"
    and v4: "valid_record (get two_keys) (parse_links two_keys) ''links:2'' = Some [''7'']"
    by (simp_all add: valid_record_def two_keys_def)
  show ?thesis
    using loadData_skips_corrupted [OF h1 h2 h3 h4 h5, of initial] h1 h2 h3 v1 v2 v3 v4
    by (simp add: listed_def)
qed

lemma text_content_no_array:
  assumes "\<forall>items. property data ''content'' \<noteq> Inr (Some (JArr items))"
  shows "\<exists>e. text_content ts data = Inl e"
  using assms
  by (auto simp: text_content_def split: sum.split option.split js_value.split)

text \<open>Claim C3, amended. \<^verbatim>\<open>analyzeDocument\<close> returns exactly the fallback whenever the
  request is rejected, the body of the response is not JSON, the parsed body has no
  \<^verbatim>\<open>content\<close> array or reading its blocks throws, or the text of the blocks, fences removed
  and trimmed, is rejected by \<^verbatim>\<open>JSON.parse\<close>; and it never returns an error. The status of the
  response is not among the conditions.\<close>

theorem analyzeDocument_fallback:
  assumes "fetch env ttl (take 5000 text) = Inl e
     \<or> (\<exists>r. fetch env ttl (take 5000 text) = Inr r
          \<and> (json r = Inl e
             \<or> (\<exists>data. json r = Inr data
                  \<and> ((\<forall>items. property data ''content'' \<noteq> Inr (Some (JArr items)))
                     \<or> text_content (ToString env) data = Inl e
                     \<or> (\<exists>tc. text_content (ToString env) data = Inr tc
                            \<and> JSON_parse env (trim (strip_fences tc)) = Inl e)))))"
  shows "analyzeDocument env text ttl = Inr fallback
       \<and> (\<forall>e'. analyzeDocument env text ttl \<noteq> Inl e')"
proof -
  have "\<exists>e'. analyzeDocument_try env text ttl = Inl e'"
    using assms text_content_no_array [of _ "ToString env"]
    by (fastforce simp: analyzeDocument_try_def split: sum.split)
  then have "analyzeDocument env text ttl = Inr fallback"
    by (auto simp: analyzeDocument_def)
  then show ?thesis by simp
qed

theorem analyzeDocument_fallback_witness:
  "fetch unreachable_service ''notes.txt'' (take 5000 ''Alice met Bob to discuss graph theory.'')
     = Inl NetworkError
   \<and> analyzeDocument unreachable_service ''Alice met Bob to discuss graph theory.'' ''notes.txt''
     = Inr \<lparr>summary = ''Analysis unavailable'', keywords' = [], entities = [], topic = ''General''\<rparr>"
proof -
  have h: "fetch unreachable_service ''notes.txt'' (take 5000 ''Alice met Bob to discuss graph theory.'')
     = Inl NetworkError"
    by (simp add: unreachable_service_def)
  show ?thesis
    using analyzeDocument_fallback [of unreachable_service "''notes.txt''"
        "''Alice met Bob to discuss graph theory.''" NetworkError] h
    by (simp add: fallback_def)
qed

text \<open>Claim C3 as stated fails: a response with status 500 whose body is a well-formed
  answer is analysed like any other.\<close>

theorem analyzeDocument_error_status:
  "fetch failing_service ''notes.txt'' (take 5000 ''Alice met Bob to discuss graph theory.'')
     = Inr server_error
   \<and> status server_error = 500
   \<and> analyzeDocument failing_service ''Alice met Bob to discuss graph theory.'' ''notes.txt''
     = Inr graph_theory
   \<and> graph_theory \<noteq> fallback"
  by (simp add: failing_service_def server_error_def analyzeDocument_def analyzeDocument_try_def
      stub_text trim_def is_space_def stub_parse_def graph_theory_def fallback_def)

text \<open>Claim C1 at a failing input. The first document of the library has the tags
  \<^verbatim>\<open>Physics\<close> and \<^verbatim>\<open>mine\<close>, and the new topic is \<^verbatim>\<open>Mathematics\<close>. In memory the first
  tag is replaced; the record written under \<^verbatim>\<open>doc:7\<close> keeps the old tags, so it is not
  the in-memory document.\<close>

theorem regenerateAnalysis_persists_old_tags:
  "tags (documents (fst regenerated) ! 0) = [''Mathematics'', ''mine'']
   \<and> snd regenerated ''doc:7'' = Some (Doc (spread quantum graph_theory))
   \<and> tags (spread quantum graph_theory) = [''Physics'', ''mine'']
   \<and> snd regenerated ''doc:7'' \<noteq> Some (Doc (documents (fst regenerated) ! 0))"
  by (simp add: regenerated_eq spread_def quantum_def)

lemma addNote_notes_of:
  "notes_of (fst (addNote str docId note now stamp st)) (str docId)
     = notes_of st (str docId) @ [\<lparr>Note.id' = now, text' = note, timestamp = stamp\<rparr>]"
  by (simp add: addNote_def notes_of_def Let_def)

lemma addNotes_notes_of:
  "notes_of (fst (addNotes str docId calls st)) (str docId)
     = notes_of st (str docId)
       @ map (\<lambda>(note, now, stamp). \<lparr>Note.id' = now, text' = note, timestamp = stamp\<rparr>) calls"
proof (induction calls arbitrary: st)
  case Nil
  then show ?case by simp
next
  case (Cons c calls)
  obtain body now stamp where c: "c = (body, now, stamp)" by (cases c) auto
  have step: "fst (addNotes str docId (c # calls) st)
      = fst (addNotes str docId calls (fst (addNote str docId body now stamp st)))"
    by (simp add: c split: prod.split)
  show ?case
    unfolding step Cons.IH addNote_notes_of by (simp add: c)
qed

text \<open>Claim C9, amended. The identifier of a note is the clock reading of the call that
  added it. The identifiers in the note list of a document are pairwise distinct after a
  sequence of calls when the clock readings of the calls are pairwise distinct and differ from
  the identifiers the list had.\<close>

theorem addNotes_ids:
  assumes "distinct (map Note.id' (notes_of st (str docId)) @ map (\<lambda>(note, now, stamp). now) calls)"
  shows "map Note.id' (notes_of (fst (addNotes str docId calls st)) (str docId))
           = map Note.id' (notes_of st (str docId)) @ map (\<lambda>(note, now, stamp). now) calls
       \<and> distinct (map Note.id' (notes_of (fst (addNotes str docId calls st)) (str docId)))"
proof -
  have "map Note.id' (map (\<lambda>(note, now, stamp). \<lparr>Note.id' = now, text' = note, timestamp = stamp\<rparr>) calls)
      = map (\<lambda>(note, now, stamp). now) calls"
    by (induction calls) auto
  then have "map Note.id' (notes_of (fst (addNotes str docId calls st)) (str docId))
           = map Note.id' (notes_of st (str docId)) @ map (\<lambda>(note, now, stamp). now) calls"
    by (simp only: addNotes_notes_of map_append)
  with assms show ?thesis by simp
qed

text \<open>Claim C9 as stated fails: two notes added within the same millisecond share their
  identifier.\<close>

theorem addNote_same_millisecond:
  "\<not> distinct (map Note.id'
       (notes_of (fst (addNotes decimal 7
          [(''first'', 1700000000000, ''2023-11-14T22:13:20.000Z''),
           (''second'', 1700000000000, ''2023-11-14T22:13:20.000Z'')] initial)) (decimal 7)))"
proof -
  have e: "notes_of initial (decimal 7) = []"
    by (simp add: notes_of_def initial_def)
  show ?thesis unfolding addNotes_notes_of e by simp
qed

theorem addNotes_ids_witness:
  "distinct (map Note.id' (notes_of initial (decimal 7))
        @ map (\<lambda>(note, now, stamp). now)
            [(''first'', 1700000000000, ''a''), (''second'', 1700000000001, ''b'')])
   \<and> map Note.id' (notes_of (fst (addNotes decimal 7
          [(''first'', 1700000000000, ''a''), (''second'', 1700000000001, ''b'')] initial)) (decimal 7))
       = [1700000000000, 1700000000001]
   \<and> distinct (map Note.id' (notes_of (fst (addNotes decimal 7
          [(''first'', 1700000000000, ''a''), (''second'', 1700000000001, ''b'')] initial)) (decimal 7)))"
proof -
  have h: "distinct (map Note.id' (notes_of initial (decimal 7))
        @ map (\<lambda>(note, now, stamp). now)
            [(''first'', 1700000000000, ''a''), (''second'', 1700000000001, ''b'')])"
    by (simp add: notes_of_def initial_def)
  have e: "notes_of initial (decimal 7) = []"
    by (simp add: notes_of_def initial_def)
  show ?thesis
    using addNotes_ids [where st = initial and str = decimal and docId = 7
        and calls = "[(''first'', 1700000000000, ''a''), (''second'', 1700000000001, ''b'')]"] h
    unfolding e by simp
qed

lemma addTag_run:
  "run (addTag str docId tag) (st, store) =
     (st\<lparr>documents := map (\<lambda>d. if id' d = docId \<and> tag \<notin> set (tags d)
                      then d\<lparr>tags := tags d @ [tag]\<rparr> else d) (documents st)\<rparr>,
      store(''doc:'' @ str docId \<mapsto>
        (case find (\<lambda>d. id' d = docId)
                (map (\<lambda>d. if id' d = docId \<and> tag \<notin> set (tags d)
                      then d\<lparr>tags := tags d @ [tag]\<rparr> else d) (documents st))
         of None \<Rightarrow> Undefined | Some d \<Rightarrow> Doc d)))"
  by (simp add: run_def addTag_def Let_def persist_def)

lemma addTag_step_idem:
  "map (\<lambda>d. if id' d = docId \<and> tag \<notin> set (tags d) then d\<lparr>tags := tags d @ [tag]\<rparr> else d)
     (map (\<lambda>d. if id' d = docId \<and> tag \<notin> set (tags d) then d\<lparr>tags := tags d @ [tag]\<rparr> else d) docs)
   = map (\<lambda>d. if id' d = docId \<and> tag \<notin> set (tags d) then d\<lparr>tags := tags d @ [tag]\<rparr> else d) docs"
  by (induction docs) auto

lemma addTag_twice:
  "run (addTag str docId tag) (run (addTag str docId tag) (st, store))
     = run (addTag str docId tag) (st, store)"
  unfolding addTag_run by (simp add: addTag_step_idem del: map_map)

text \<open>Claim C8, amended. When every document with the identifier already has the tag,
  \<^verbatim>\<open>addTag\<close> leaves the state in memory as it is and writes the document found in memory
  under \<^verbatim>\<open>doc:<docId>\<close>, so that the store is unchanged when it already held that document.
  Whether the tag is present or not, running \<^verbatim>\<open>addTag\<close> twice leaves memory and store as
  running it once does.\<close>

theorem addTag_present:
  "((\<forall>d\<in>set (documents st). id' d = docId \<longrightarrow> tag \<in> set (tags d)) \<longrightarrow>
      fst (addTag str docId tag st) = st
      \<and> snd (addTag str docId tag st)
           = [Storage_set (''doc:'' @ str docId)
                (case find (\<lambda>d. id' d = docId) (documents st) of
                   None \<Rightarrow> Undefined | Some d \<Rightarrow> Doc d)]
      \<and> (store (''doc:'' @ str docId)
             = Some (case find (\<lambda>d. id' d = docId) (documents st) of
                       None \<Rightarrow> Undefined | Some d \<Rightarrow> Doc d)
            \<longrightarrow> run (addTag str docId tag) (st, store) = (st, store)))
   \<and> run (addTag str docId tag) (run (addTag str docId tag) (st, store))
       = run (addTag str docId tag) (st, store)"
proof (intro conjI impI)
  assume present: "\<forall>d\<in>set (documents st). id' d = docId \<longrightarrow> tag \<in> set (tags d)"
  define f where "f = (\<lambda>d::'a document. if id' d = docId \<and> tag \<notin> set (tags d)
                      then d\<lparr>tags := tags d @ [tag]\<rparr> else d)"
  have same: "map f (documents st) = documents st"
    using present by (intro map_idI) (simp add: f_def)
  have a: "addTag str docId tag st =
      (st, [Storage_set (''doc:'' @ str docId)
                (case find (\<lambda>d. id' d = docId) (documents st) of
                   None \<Rightarrow> Undefined | Some d \<Rightarrow> Doc d)])"
    unfolding addTag_def Let_def f_def [symmetric] same by simp
  show "fst (addTag str docId tag st) = st"
    by (simp add: a)
  show "snd (addTag str docId tag st)
           = [Storage_set (''doc:'' @ str docId)
                (case find (\<lambda>d. id' d = docId) (documents st) of
                   None \<Rightarrow> Undefined | Some d \<Rightarrow> Doc d)]"
    by (simp add: a)
  assume "store (''doc:'' @ str docId)
             = Some (case find (\<lambda>d. id' d = docId) (documents st) of
                       None \<Rightarrow> Undefined | Some d \<Rightarrow> Doc d)"
  then show "run (addTag str docId tag) (st, store) = (st, store)"
    by (auto simp: run_def a persist_def fun_upd_idem)
next
  show "run (addTag str docId tag) (run (addTag str docId tag) (st, store))
       = run (addTag str docId tag) (st, store)"
    by (rule addTag_twice)
qed

theorem addTag_present_witness:
  "documents library = [quantum, baking]
   \<and> ''Physics'' \<in> set (tags quantum)
   \<and> id' baking \<noteq> 7
   \<and> library_store (''doc:'' @ decimal 7) = Some (Doc quantum)
   \<and> fst (addTag decimal 7 ''Physics'' library) = library
   \<and> run (addTag decimal 7 ''Physics'') (library, library_store) = (library, library_store)
   \<and> ''new'' \<notin> set (tags quantum)
   \<and> tags (documents (fst (run (addTag decimal 7 ''new'') (library, library_store))) ! 0)
       = [''Physics'', ''mine'', ''new'']
   \<and> run (addTag decimal 7 ''new'') (run (addTag decimal 7 ''new'') (library, library_store))
       = run (addTag decimal 7 ''new'') (library, library_store)"
proof -
  have h: "\<forall>d\<in>set (documents library). id' d = 7 \<longrightarrow> ''Physics'' \<in> set (tags d)"
    by (simp add: library_def initial_def quantum_def baking_def)
  have f: "find (\<lambda>d. id' d = 7) (documents library) = Some quantum"
    by (simp add: library_def initial_def quantum_def)
  have s: "library_store (''doc:'' @ decimal 7) = Some (Doc quantum)"
    by (simp add: library_store_def decimal_7)
  have present: "fst (addTag decimal 7 ''Physics'' library) = library
      \<and> run (addTag decimal 7 ''Physics'') (library, library_store) = (library, library_store)"
    using addTag_present [where st = library and docId = 7 and tag = "''Physics''"
        and str = decimal and store = library_store] h s
    by (simp add: f)
  have twice: "run (addTag decimal 7 ''new'') (run (addTag decimal 7 ''new'') (library, library_store))
       = run (addTag decimal 7 ''new'') (library, library_store)"
    using addTag_present [where st = library and docId = 7 and tag = "''new''"
        and str = decimal and store = library_store]
    by blast
  have facts: "documents library = [quantum, baking]" "''Physics'' \<in> set (tags quantum)"
    "id' baking \<noteq> 7" "''new'' \<notin> set (tags quantum)"
    "tags (documents (fst (run (addTag decimal 7 ''new'') (library, library_store))) ! 0)
       = [''Physics'', ''mine'', ''new'']"
    by (simp_all add: library_def initial_def quantum_def baking_def run_def addTag_def Let_def)
  from present twice facts s show ?thesis by (intro conjI) simp_all
qed

text \<open>Claim C8 as stated fails where memory and store differ, as they do after
  \<^verbatim>\<open>regenerateAnalysis\<close>: the tag is on the document, and \<^verbatim>\<open>addTag\<close> changes the record.\<close>

theorem addTag_rewrites_record:
  "length (documents (fst regenerated)) = 2
   \<and> id' (documents (fst regenerated) ! 0) = 7
   \<and> id' (documents (fst regenerated) ! 1) = 8
   \<and> ''mine'' \<in> set (tags (documents (fst regenerated) ! 0))
   \<and> snd (run (addTag decimal 7 ''mine'') regenerated) ''doc:7'' \<noteq> snd regenerated ''doc:7''"
  by (simp add: regenerated_eq run_def addTag_def Let_def persist_def decimal_7
      spread_def quantum_def baking_def)

end
